theory Spec2Isabelle
  imports Main "HOL-Library.AList" "HOL-Library.Word"
begin

section \<open>JavaScript values and objects\<close>

text \<open>
  The values that the workflow context, the step configuration and the step outputs hold
  are data as JSON has it: \<^verbatim>\<open>undefined\<close>, \<^verbatim>\<open>null\<close>, booleans, numbers, strings and plain
  objects. A number is an integer from \<open>-2\<^sup>5\<^sup>3\<close> to \<open>2\<^sup>5\<^sup>3 - 1\<close>, the range in which a JS number
  holds every integer exactly and prints it in decimal; it is kept in a signed word of 54
  bits, and the engine does no arithmetic on it. A plain object is the association list of
  its own properties, read by key: where a key occurs twice the first entry is the
  property, and the order of the list is not the order in which JS enumerates keys. Its
  prototype is \<^verbatim>\<open>Object.prototype\<close>, whose members are functions and the accessor
  \<^verbatim>\<open>__proto__\<close>; the engine reads none of them by name, and they are not values here.
\<close>

datatype jsval =
    JUndefined
  | JNull
  | JBool bool
  | JNum "54 word"
  | JStr string
  | JObj "(string \<times> jsval) list"

type_synonym obj = "(string \<times> jsval) list"

text \<open>Truthiness, as tested by \<^verbatim>\<open>!v\<close>, \<^verbatim>\<open>a || b\<close> and \<^verbatim>\<open>if (v)\<close>.\<close>

fun truthy :: "jsval \<Rightarrow> bool" where
  "truthy JUndefined = False"
| "truthy JNull = False"
| "truthy (JBool b) = b"
| "truthy (JNum n) = (n \<noteq> 0)"
| "truthy (JStr s) = (s \<noteq> [])"
| "truthy (JObj kvs) = True"

text \<open>\<^verbatim>\<open>a || b\<close>\<close>

definition js_or :: "jsval \<Rightarrow> jsval \<Rightarrow> jsval" where
  "js_or a b = (if truthy a then a else b)"

text \<open>
  \<^verbatim>\<open>o.k\<close> on a plain object, for a key that \<^verbatim>\<open>Object.prototype\<close> does not define: a
  missing property reads as \<^verbatim>\<open>undefined\<close>.
\<close>

definition get_prop :: "obj \<Rightarrow> string \<Rightarrow> jsval" where
  "get_prop ob k = (case map_of ob k of Some v \<Rightarrow> v | None \<Rightarrow> JUndefined)"


text \<open>Conversion to a string inside a template literal.\<close>

fun digits :: "nat \<Rightarrow> string" where
  "digits n =
     (if n < 10 then [char_of (48 + n)]
      else digits (n div 10) @ [char_of (48 + n mod 10)])"

declare digits.simps [simp del]

fun template :: "jsval \<Rightarrow> string" where
  "template JUndefined = ''undefined''"
| "template JNull = ''null''"
| "template (JBool b) = (if b then ''true'' else ''false'')"
| "template (JNum n) =
     (if sint n < 0 then ''-'' @ digits (nat (- sint n)) else digits (nat (sint n)))"
| "template (JStr s) = s"
| "template (JObj kvs) = ''[object Object]''"

subsection \<open>Thrown values\<close>

text \<open>
  Any value can be thrown. \<^verbatim>\<open>new Error(msg)\<close> is an object of which the engine reads only
  the message.
\<close>

definition new_Error :: "string \<Rightarrow> jsval" where
  "new_Error msg = JObj [(''message'', JStr msg)]"

text \<open>
  \<^verbatim>\<open>(error as Error).message\<close> in a \<^verbatim>\<open>catch\<close> block. The cast does nothing at run time: on
  \<^verbatim>\<open>undefined\<close> and \<^verbatim>\<open>null\<close> the read itself throws a \<^verbatim>\<open>TypeError\<close> (\<open>Inl\<close>, with the message
  that Node gives it), and a primitive has no message.
\<close>

fun read_message :: "jsval \<Rightarrow> jsval + jsval" where
  "read_message JUndefined =
     Inl (new_Error (''Cannot read properties of undefined (reading '' @ [CHR 39] @ ''message''
                       @ [CHR 39] @ '')''))"
| "read_message JNull =
     Inl (new_Error (''Cannot read properties of null (reading '' @ [CHR 39] @ ''message''
                       @ [CHR 39] @ '')''))"
| "read_message (JObj kvs) = Inr (get_prop kvs ''message'')"
| "read_message v = Inr JUndefined"

subsection \<open>The context object\<close>

text \<open>
  The context of a run is the one object that the engine writes to, with
  \<^verbatim>\<open>Object.assign\<close>. Such a write can replace its prototype, so the context carries one:
  \<^verbatim>\<open>Object.prototype\<close> at first, later possibly \<^verbatim>\<open>null\<close> or a plain object.
\<close>

datatype prototype = DefaultPrototype | NullPrototype | ObjectAsPrototype obj

record StepExecutionContext =
  own :: obj
  proto :: prototype

text \<open>
  \<^verbatim>\<open>context.k\<close>: an own property, else the property of the prototype (for a key that
  \<^verbatim>\<open>Object.prototype\<close> does not define).
\<close>

definition ctx_get :: "StepExecutionContext \<Rightarrow> string \<Rightarrow> jsval" where
  "ctx_get c k =
     (case map_of (own c) k of
        Some v \<Rightarrow> v
      | None \<Rightarrow> (case proto c of ObjectAsPrototype p \<Rightarrow> get_prop p k | _ \<Rightarrow> JUndefined))"

text \<open>
  The prototype chain of the context ends in \<^verbatim>\<open>Object.prototype\<close> and no object before it
  has a property \<^verbatim>\<open>__proto__\<close> of its own: then a write to \<^verbatim>\<open>__proto__\<close> reaches the setter.
\<close>

fun reaches_setter :: "prototype \<Rightarrow> bool" where
  "reaches_setter DefaultPrototype = True"
| "reaches_setter NullPrototype = False"
| "reaches_setter (ObjectAsPrototype p) = (map_of p ''__proto__'' = None)"

text \<open>
  \<^verbatim>\<open>context[k] = v\<close>. The write makes or updates an own property, except for the key
  \<^verbatim>\<open>__proto__\<close> when the context has no such property of its own and inherits the setter
  of \<^verbatim>\<open>Object.prototype\<close>: the setter makes an object or \<^verbatim>\<open>null\<close> the prototype of the
  context and ignores any other value.
\<close>

definition ctx_set :: "string \<Rightarrow> jsval \<Rightarrow> StepExecutionContext \<Rightarrow> StepExecutionContext" where
  "ctx_set k v c =
     (if k = ''__proto__'' \<and> map_of (own c) k = None \<and> reaches_setter (proto c) then
        (case v of
           JObj p \<Rightarrow> c\<lparr>proto := ObjectAsPrototype p\<rparr>
         | JNull \<Rightarrow> c\<lparr>proto := NullPrototype\<rparr>
         | _ \<Rightarrow> c)
      else c\<lparr>own := AList.update k v (own c)\<rparr>)"

text \<open>
  \<^verbatim>\<open>Object.assign(context, source)\<close>: for every own key of the source, the value of the
  source at that key is written to the context.
\<close>

definition object_assign :: "StepExecutionContext \<Rightarrow> obj \<Rightarrow> StepExecutionContext" where
  "object_assign target source =
     fold (\<lambda>k. ctx_set k (get_prop source k)) (remdups (map fst source)) target"

text \<open>\<^verbatim>\<open>{ ...initialContext }\<close>: a new plain object with the own properties of the given one.\<close>

definition spread :: "obj \<Rightarrow> StepExecutionContext" where
  "spread ob = \<lparr>own = ob, proto = DefaultPrototype\<rparr>"

section \<open>Data model\<close>

datatype WorkflowStepStatus = PENDING | RUNNING | SUCCESS | FAILED | SKIPPED

text \<open>
  The counts and durations of a retry policy are integers (no fraction, no \<^verbatim>\<open>NaN\<close>, nothing
  infinite).
\<close>

record retry_policy =
  maxAttempts :: int
  delay :: int

record WorkflowStepDefinition =
  sd_id :: string
  sd_name :: string
  sd_type :: string
  sd_provider :: "string option"
  sd_config :: "obj option"
  onSuccess :: "string option"
  onFailure :: "string option"
  retry :: "retry_policy option"

text \<open>The engine reads only the id and the steps of a definition.\<close>

record WorkflowDefinition =
  wf_id :: string
  wf_name :: string
  wf_steps :: "WorkflowStepDefinition list"

text \<open>
  A step record. Its \<^verbatim>\<open>input\<close> field is assigned the context object itself
  (\<^verbatim>\<open>input: context\<close>), so it holds a reference into the store, not a value. Its \<^verbatim>\<open>error\<close>
  field is assigned what \<^verbatim>\<open>.message\<close> reads, which need not be a string.
\<close>

record WorkflowStep =
  ws_id :: string
  ws_name :: string
  ws_status :: WorkflowStepStatus
  ws_provider :: "string option"
  ws_input :: nat
  ws_output :: "obj option"
  ws_error :: "jsval option"
  ws_startedAt :: int
  ws_completedAt :: "int option"

record WorkflowExecution =
  ex_id :: string
  ex_workflowId :: string
  ex_orderId :: jsval
  ex_status :: WorkflowStepStatus
  ex_steps :: "WorkflowStep list"
  ex_startedAt :: int
  ex_completedAt :: "int option"
  ex_error :: "jsval option"

section \<open>Collaborators and effects\<close>

text \<open>
  What lies outside the engine (couriers, the webhook endpoint) is a state of type \<open>'w\<close>;
  \<^verbatim>\<open>new Date()\<close> reads the clock, in milliseconds.
\<close>

record 'w world =
  ext :: 'w
  clock :: int

text \<open>
  The actions of the engine that a caller can observe from outside: a call of
  \<^verbatim>\<open>executor.execute\<close> for a step, and a timer set between two attempts, with the delay it
  was given.
\<close>

datatype event = Invoke string | Wait int

record executor_result =
  res_output :: "obj option"
  nextStepId :: "string option"

text \<open>
  An executor returns a result object, as its declared type has it, or throws a value of
  any kind.
\<close>

datatype outcome = Return executor_result | Throw jsval

text \<open>
  Of a provider, the modelled executors call only the optional free-shipping check, which
  returns a notification or \<^verbatim>\<open>null\<close>, or throws (\<open>Inl\<close>).
\<close>

record 'w IProvider =
  checkFreeShipping :: "(jsval \<Rightarrow> 'w world \<Rightarrow> (jsval + jsval) \<times> 'w world) option"

type_synonym 'w providers = "string \<rightharpoonup> 'w IProvider"

type_synonym 'w IStepExecutor =
  "WorkflowStepDefinition \<Rightarrow> StepExecutionContext \<Rightarrow> 'w providers \<Rightarrow> 'w world \<Rightarrow>
   outcome \<times> 'w world"



section \<open>Step executors\<close>

text \<open>\<^verbatim>\<open>step.provider || context.provider\<close>\<close>

definition providerId_of :: "WorkflowStepDefinition \<Rightarrow> StepExecutionContext \<Rightarrow> jsval" where
  "providerId_of step context =
     js_or (case sd_provider step of Some p \<Rightarrow> JStr p | None \<Rightarrow> JUndefined)
           (ctx_get context ''provider'')"

text \<open>\<^verbatim>\<open>providers.get(providerId)\<close>: the table is keyed by strings.\<close>

definition providers_get :: "'w providers \<Rightarrow> jsval \<Rightarrow> 'w IProvider option" where
  "providers_get providers pid = (case pid of JStr s \<Rightarrow> providers s | _ \<Rightarrow> None)"

definition CheckFreeShippingStepExecutor :: "'w IStepExecutor" where
  "CheckFreeShippingStepExecutor step context providers w =
     (let providerId = providerId_of step context in
      if \<not> truthy providerId then
        (Throw (new_Error ''Provider is required for check_free_shipping step''), w)
      else if \<not> truthy (ctx_get context ''orderId'') then
        (Throw (new_Error ''Order ID is required for check_free_shipping step''), w)
      else
        (case providers_get providers providerId of
           None \<Rightarrow>
             (Throw (new_Error (''Provider '' @ template providerId @ '' not found'')), w)
         | Some provider \<Rightarrow>
             (case checkFreeShipping provider of
                None \<Rightarrow>
                  (Return \<lparr>res_output = Some [(''notification'', JNull)],
                           nextStepId = onFailure step\<rparr>, w)
              | Some check \<Rightarrow>
                  (case check (ctx_get context ''orderId'') w of
                     (Inl thrown, w') \<Rightarrow> (Throw thrown, w')
                   | (Inr notification, w') \<Rightarrow>
                       (Return \<lparr>res_output = Some [(''notification'', notification)],
                                nextStepId = (if truthy notification then onSuccess step
                                              else onFailure step)\<rparr>, w')))))"





section \<open>The workflow engine\<close>

text \<open>
  The state of one run: the outside world, the observable actions so far, the store of
  context objects (the context of the run lives there, at the address every step record
  refers to) and the execution record that the caller holds.
\<close>

record 'w engine_state =
  world :: "'w world"
  trace :: "event list"
  heap :: "StepExecutionContext list"
  execution :: WorkflowExecution

text \<open>
  The store is the list of the objects allocated so far; an address is a position in it.
  Every address the engine holds has been allocated before.
\<close>

definition deref :: "StepExecutionContext list \<Rightarrow> nat \<Rightarrow> StepExecutionContext" where
  "deref h a = (if a < length h then h ! a else spread [])"

type_synonym 'w stepExecutors = "string \<rightharpoonup> 'w IStepExecutor"

text \<open>How the retry loop of \<^verbatim>\<open>executeStep\<close> is left.\<close>

datatype loop_exit =
    Succeeded executor_result
  | Threw jsval
  | NotEntered

text \<open>
  \<^verbatim>\<open>if (retryDelay > 0) { await new Promise((resolve) => setTimeout(resolve, retryDelay)) }\<close>:
  the timer lets the clock advance by its duration. Node runs a timer whose delay exceeds
  2147483647 ms with a delay of 1 ms.
\<close>

definition tick :: "int \<Rightarrow> 'w world \<Rightarrow> 'w world" where
  "tick ms w = w\<lparr>clock := clock w + ms\<rparr>"

definition timer_duration :: "int \<Rightarrow> int" where
  "timer_duration ms = (if ms > 2147483647 then 1 else ms)"

definition pause :: "int \<Rightarrow> 'w world \<Rightarrow> 'w world" where
  "pause retryDelay w = (if retryDelay > 0 then tick (timer_duration retryDelay) w else w)"

definition waits :: "int \<Rightarrow> event list" where
  "waits retryDelay = (if retryDelay > 0 then [Wait retryDelay] else [])"

definition sleep :: "int \<Rightarrow> 'w engine_state \<Rightarrow> 'w engine_state" where
  "sleep retryDelay st =
     st\<lparr>world := pause retryDelay (world st), trace := trace st @ waits retryDelay\<rparr>"

text \<open>
  The loop \<^verbatim>\<open>while (attempts < maxAttempts)\<close>. The executor is handed the context object;
  none of the modelled executors writes to it.
\<close>

function retry_loop ::
  "'w IStepExecutor \<Rightarrow> WorkflowStepDefinition \<Rightarrow> nat \<Rightarrow> 'w providers \<Rightarrow>
   int \<Rightarrow> int \<Rightarrow> int \<Rightarrow> 'w engine_state \<Rightarrow> loop_exit \<times> 'w engine_state" where
  "retry_loop executor stepDef context providers maxAtt retryDelay attempts st =
     (if attempts < maxAtt then
        (case executor stepDef (deref (heap st) context) providers (world st) of
           (Return result, w) \<Rightarrow>
             (Succeeded result, st\<lparr>world := w, trace := trace st @ [Invoke (sd_id stepDef)]\<rparr>)
         | (Throw thrown, w) \<Rightarrow>
             (let st1 = st\<lparr>world := w, trace := trace st @ [Invoke (sd_id stepDef)]\<rparr> in
              if attempts + 1 \<ge> maxAtt then (Threw thrown, st1)
              else retry_loop executor stepDef context providers maxAtt retryDelay
                     (attempts + 1) (sleep retryDelay st1)))
      else (NotEntered, st))"
  by pat_completeness auto
termination
  by (relation "measure (\<lambda>(executor, stepDef, context, providers, maxAtt, retryDelay, attempts, st).
                  nat (maxAtt - attempts))") auto

declare retry_loop.simps [simp del]

text \<open>\<^verbatim>\<open>stepDef.retry?.maxAttempts || 1\<close> and \<^verbatim>\<open>stepDef.retry?.delay || 0\<close>\<close>

definition maxAttempts_of :: "WorkflowStepDefinition \<Rightarrow> int" where
  "maxAttempts_of stepDef =
     (case retry stepDef of None \<Rightarrow> 1
      | Some r \<Rightarrow> if maxAttempts r = 0 then 1 else maxAttempts r)"

definition retryDelay_of :: "WorkflowStepDefinition \<Rightarrow> int" where
  "retryDelay_of stepDef = (case retry stepDef of None \<Rightarrow> 0 | Some r \<Rightarrow> delay r)"

text \<open>
  \<^verbatim>\<open>executeStep\<close> returns the step record (\<open>Inr\<close>), or throws (\<open>Inl\<close>): its outer \<^verbatim>\<open>catch\<close>
  block sets the status, then reads the message of the caught value, and that read can
  throw; the record is then lost.
\<close>

definition executeStep ::
  "'w stepExecutors \<Rightarrow> WorkflowStepDefinition \<Rightarrow> nat \<Rightarrow> 'w providers \<Rightarrow>
   'w engine_state \<Rightarrow> (jsval + WorkflowStep) \<times> 'w engine_state" where
  "executeStep stepExecutors stepDef context providers st =
     (let step = \<lparr>ws_id = sd_id stepDef, ws_name = sd_name stepDef, ws_status = RUNNING,
                  ws_provider = sd_provider stepDef, ws_input = context, ws_output = None,
                  ws_error = None, ws_startedAt = clock (world st), ws_completedAt = None\<rparr> in
      case stepExecutors (sd_type stepDef) of
        None \<Rightarrow>
          (case read_message (new_Error (''No executor found for step type: '' @ sd_type stepDef)) of
             Inr msg \<Rightarrow>
               (Inr (step\<lparr>ws_status := FAILED, ws_error := Some msg,
                          ws_completedAt := Some (clock (world st))\<rparr>), st)
           | Inl typeError \<Rightarrow> (Inl typeError, st))
      | Some executor \<Rightarrow>
          (case retry_loop executor stepDef context providers
                  (maxAttempts_of stepDef) (retryDelay_of stepDef) 0 st of
             (Succeeded result, st') \<Rightarrow>
               (Inr (step\<lparr>ws_status := SUCCESS, ws_output := res_output result,
                          ws_completedAt := Some (clock (world st'))\<rparr>), st')
           | (Threw thrown, st') \<Rightarrow>
               (case read_message thrown of
                  Inr msg \<Rightarrow>
                    (Inr (step\<lparr>ws_status := FAILED, ws_error := Some msg,
                               ws_completedAt := Some (clock (world st'))\<rparr>), st')
                | Inl typeError \<Rightarrow> (Inl typeError, st'))
           | (NotEntered, st') \<Rightarrow> (Inr step, st')))"

text \<open>The mutations of the execution record and of the context made by the walk.\<close>

definition push_step :: "WorkflowStep \<Rightarrow> 'w engine_state \<Rightarrow> 'w engine_state" where
  "push_step step st =
     st\<lparr>execution := (execution st)\<lparr>ex_steps := ex_steps (execution st) @ [step]\<rparr>\<rparr>"

definition fail_execution :: "WorkflowStep \<Rightarrow> 'w engine_state \<Rightarrow> 'w engine_state" where
  "fail_execution step st =
     st\<lparr>execution := (execution st)\<lparr>ex_status := FAILED, ex_error := ws_error step,
                                     ex_completedAt := Some (clock (world st))\<rparr>\<rparr>"

definition merge_output :: "nat \<Rightarrow> WorkflowStep \<Rightarrow> 'w engine_state \<Rightarrow> 'w engine_state" where
  "merge_output context step st =
     (case ws_output step of
        None \<Rightarrow> st
      | Some out \<Rightarrow>
          st\<lparr>heap := (heap st)[context := object_assign (deref (heap st) context) out]\<rparr>)"

text \<open>
  The loop \<^verbatim>\<open>while (currentStepId)\<close> of \<^verbatim>\<open>executeWorkflowAsync\<close>. A workflow whose edges
  form a cycle keeps it running for ever, so the model counts iterations: \<open>Looping\<close> is the
  state at the head of the loop when the count is used up, \<open>Exited\<close> the state in which the
  loop was left, \<open>Faulted\<close> the value that \<^verbatim>\<open>executeStep\<close> threw and the state in which it did.
\<close>

datatype 'w walk_state =
    Exited "'w engine_state"
  | Looping "string option" "'w engine_state"
  | Faulted jsval "'w engine_state"

primrec walk ::
  "nat \<Rightarrow> 'w stepExecutors \<Rightarrow> WorkflowDefinition \<Rightarrow> nat \<Rightarrow> 'w providers \<Rightarrow>
   string option \<Rightarrow> 'w engine_state \<Rightarrow> 'w walk_state" where
  "walk 0 stepExecutors workflow context providers currentStepId st = Looping currentStepId st"
| "walk (Suc n) stepExecutors workflow context providers currentStepId st =
     (case currentStepId of
        None \<Rightarrow> Exited st
      | Some cur \<Rightarrow>
          if cur = [] then Exited st
          else
            (case find (\<lambda>s. sd_id s = cur) (wf_steps workflow) of
               None \<Rightarrow> Exited st
             | Some stepDef \<Rightarrow>
                 (case executeStep stepExecutors stepDef context providers st of
                    (Inl thrown, st1) \<Rightarrow> Faulted thrown st1
                  | (Inr step, st1) \<Rightarrow>
                      (let st2 = push_step step st1 in
                       if ws_status step = FAILED then Exited (fail_execution step st2)
                       else
                         (let st3 = merge_output context step st2 in
                          if ws_status step = SUCCESS then
                            walk n stepExecutors workflow context providers (onSuccess stepDef) st3
                          else if ws_status step = FAILED then
                            walk n stepExecutors workflow context providers (onFailure stepDef) st3
                          else Exited st3)))))"

text \<open>The code after the loop.\<close>

definition finish :: "'w engine_state \<Rightarrow> 'w engine_state" where
  "finish st =
     (let st1 = (if ex_status (execution st) = RUNNING
                 then st\<lparr>execution := (execution st)\<lparr>ex_status := SUCCESS\<rparr>\<rparr> else st)
      in st1\<lparr>execution := (execution st1)\<lparr>ex_completedAt := Some (clock (world st1))\<rparr>\<rparr>)"

text \<open>\<^verbatim>\<open>workflow.steps[0]?.id\<close>\<close>

definition entry :: "WorkflowDefinition \<Rightarrow> string option" where
  "entry workflow = (case wf_steps workflow of [] \<Rightarrow> None | s # rest \<Rightarrow> Some (sd_id s))"

text \<open>
  \<^verbatim>\<open>executeWorkflowAsync\<close>: the context is a fresh object with the properties of the initial
  context (\<^verbatim>\<open>{ ...initialContext }\<close>), allocated at the next free address. The promise it
  returns is resolved, or rejected with a thrown value; \<open>None\<close>: the run has not ended
  within \<open>n\<close> iterations.
\<close>

definition clone_context :: "obj \<Rightarrow> 'w engine_state \<Rightarrow> nat \<times> 'w engine_state" where
  "clone_context initialContext st =
     (length (heap st), st\<lparr>heap := heap st @ [spread initialContext]\<rparr>)"

datatype 'w settled = Resolved "'w engine_state" | Rejected jsval "'w engine_state"

definition executeWorkflowAsync ::
  "nat \<Rightarrow> 'w stepExecutors \<Rightarrow> WorkflowDefinition \<Rightarrow> obj \<Rightarrow> 'w providers \<Rightarrow>
   'w engine_state \<Rightarrow> 'w settled option" where
  "executeWorkflowAsync n stepExecutors workflow initialContext providers st =
     (case clone_context initialContext st of
        (context, st0) \<Rightarrow>
          (case walk n stepExecutors workflow context providers (entry workflow) st0 of
             Exited st' \<Rightarrow> Some (Resolved (finish st'))
           | Looping cur st' \<Rightarrow> None
           | Faulted thrown st' \<Rightarrow> Some (Rejected thrown st')))"

text \<open>
  The handler that \<^verbatim>\<open>execute\<close> attaches with \<^verbatim>\<open>.catch\<close>: it sets the status, then reads the
  message of the value, then stamps the end time. Were the read to throw, the status
  alone would be set.
\<close>

definition on_rejection :: "jsval \<Rightarrow> 'w engine_state \<Rightarrow> 'w engine_state" where
  "on_rejection thrown st =
     (case read_message thrown of
        Inr msg \<Rightarrow>
          st\<lparr>execution := (execution st)\<lparr>ex_status := FAILED, ex_error := Some msg,
                                          ex_completedAt := Some (clock (world st))\<rparr>\<rparr>
      | Inl typeError \<Rightarrow> st\<lparr>execution := (execution st)\<lparr>ex_status := FAILED\<rparr>\<rparr>)"

text \<open>
  \<^verbatim>\<open>execute\<close> creates the execution record and starts the walk without waiting for it;
  the caller keeps the record and reads it later. The model gives the state at the end of
  the detached run. The generated execution id is a parameter; the initial context is
  given by its own properties.
\<close>

definition begin_execution ::
  "string \<Rightarrow> WorkflowDefinition \<Rightarrow> obj \<Rightarrow> 'w world \<Rightarrow> 'w engine_state" where
  "begin_execution executionId workflow context w =
     \<lparr>world = w, trace = [], heap = [],
      execution = \<lparr>ex_id = executionId, ex_workflowId = wf_id workflow,
                   ex_orderId = get_prop context ''orderId'', ex_status = RUNNING,
                   ex_steps = [], ex_startedAt = clock w, ex_completedAt = None,
                   ex_error = None\<rparr>\<rparr>"

definition execute ::
  "nat \<Rightarrow> 'w stepExecutors \<Rightarrow> WorkflowDefinition \<Rightarrow> obj \<Rightarrow> 'w providers \<Rightarrow>
   string \<Rightarrow> 'w world \<Rightarrow> 'w engine_state option" where
  "execute n stepExecutors workflow context providers executionId w =
     (case executeWorkflowAsync n stepExecutors workflow context providers
             (begin_execution executionId workflow context w) of
        None \<Rightarrow> None
      | Some (Resolved st) \<Rightarrow> Some st
      | Some (Rejected thrown st) \<Rightarrow> Some (on_rejection thrown st))"

section \<open>Observing a run\<close>

text \<open>
  The run started by \<^verbatim>\<open>execute\<close>, looked at after at most \<open>k\<close> iterations of the loop of
  the walk. The context of such a run is the first object of its store.
\<close>

definition iterations ::
  "nat \<Rightarrow> 'w stepExecutors \<Rightarrow> WorkflowDefinition \<Rightarrow> obj \<Rightarrow> 'w providers \<Rightarrow>
   string \<Rightarrow> 'w world \<Rightarrow> 'w walk_state" where
  "iterations k stepExecutors workflow context providers executionId w =
     walk k stepExecutors workflow 0 providers (entry workflow)
       (snd (clone_context context (begin_execution executionId workflow context w)))"

fun state_of :: "'w walk_state \<Rightarrow> 'w engine_state" where
  "state_of (Exited st) = st"
| "state_of (Looping cur st) = st"
| "state_of (Faulted thrown st) = st"

text \<open>What a reader of the execution record finds in the \<^verbatim>\<open>input\<close> field of a step.\<close>

definition input_of :: "'w engine_state \<Rightarrow> WorkflowStep \<Rightarrow> StepExecutionContext" where
  "input_of st step = deref (heap st) (ws_input step)"

text \<open>A step record is terminal: it succeeded or failed, and carries its end time.\<close>

definition terminal :: "WorkflowStep \<Rightarrow> bool" where
  "terminal step =
     ((ws_status step = SUCCESS \<or> ws_status step = FAILED) \<and> ws_completedAt step \<noteq> None)"

text \<open>
  An executor table whose executors return the same outputs and throw the same values, with
  the \<^verbatim>\<open>nextStepId\<close> of every result replaced by a hint chosen at will.
\<close>

definition with_hint ::
  "(WorkflowStepDefinition \<Rightarrow> StepExecutionContext \<Rightarrow> 'w providers \<Rightarrow> 'w world \<Rightarrow> string option) \<Rightarrow>
   'w IStepExecutor \<Rightarrow> 'w IStepExecutor" where
  "with_hint hint executor step context providers w =
     (case executor step context providers w of
        (Return result, w') \<Rightarrow>
          (Return (result\<lparr>nextStepId := hint step context providers w\<rparr>), w')
      | (Throw thrown, w') \<Rightarrow> (Throw thrown, w'))"

definition with_hints ::
  "(WorkflowStepDefinition \<Rightarrow> StepExecutionContext \<Rightarrow> 'w providers \<Rightarrow> 'w world \<Rightarrow> string option) \<Rightarrow>
   'w stepExecutors \<Rightarrow> 'w stepExecutors" where
  "with_hints hint stepExecutors = (\<lambda>t. map_option (with_hint hint) (stepExecutors t))"

text \<open>The number of executor calls among the observed actions.\<close>

definition invocations :: "event list \<Rightarrow> nat" where
  "invocations tr = length (filter (\<lambda>e. case e of Invoke s \<Rightarrow> True | Wait ms \<Rightarrow> False) tr)"

section \<open>Example runs\<close>

text \<open>
  Executors, callers, providers and workflows on which the engine is run below. The outside
  world of these runs has no state of its own.
\<close>

definition boom :: "unit IStepExecutor" where
  "boom stepDef context providers w = (Throw (new_Error ''boom''), w)"

definition w0 :: "unit world" where
  "w0 = \<lparr>ext = (), clock = 0\<rparr>"

definition emit :: "obj \<Rightarrow> unit IStepExecutor" where
  "emit out stepDef context providers w = (Return \<lparr>res_output = Some out, nextStepId = None\<rparr>, w)"

definition plain_step ::
  "string \<Rightarrow> string \<Rightarrow> string option \<Rightarrow> string option \<Rightarrow> WorkflowStepDefinition" where
  "plain_step i t s f =
     \<lparr>sd_id = i, sd_name = i, sd_type = t, sd_provider = None, sd_config = None,
      onSuccess = s, onFailure = f, retry = None\<rparr>"

definition demo_executors :: "unit stepExecutors" where
  "demo_executors =
     [''boom'' \<mapsto> boom, ''one'' \<mapsto> emit [(''x'', JNum 1)], ''two'' \<mapsto> emit [(''x'', JNum 2)]]"

definition failing_workflow :: WorkflowDefinition where
  "failing_workflow =
     \<lparr>wf_id = ''wf-fail'', wf_name = ''failing'',
      wf_steps = [plain_step ''s1'' ''boom'' (Some ''s2'') (Some ''s2''),
                  plain_step ''s2'' ''one'' None None]\<rparr>"

definition dangling_workflow :: WorkflowDefinition where
  "dangling_workflow =
     \<lparr>wf_id = ''wf-dangling'', wf_name = ''dangling'',
      wf_steps = [plain_step ''s1'' ''one'' (Some ''nowhere'') None]\<rparr>"

definition hinted_workflow :: WorkflowDefinition where
  "hinted_workflow =
     \<lparr>wf_id = ''wf-hint'', wf_name = ''hinted'',
      wf_steps = [plain_step ''s1'' ''one'' None (Some ''s2''),
                  plain_step ''s2'' ''two'' None None]\<rparr>"

definition flaky :: "unit IStepExecutor" where
  "flaky stepDef context providers w =
     (if clock w < 5 then (Throw (new_Error ''not yet''), tick 5 w)
      else (Return \<lparr>res_output = Some [(''done'', JBool True)], nextStepId = None\<rparr>, w))"

definition zero_retry_step :: WorkflowStepDefinition where
  "zero_retry_step =
     \<lparr>sd_id = ''z1'', sd_name = ''zero'', sd_type = ''flaky'', sd_provider = None,
      sd_config = None, onSuccess = None, onFailure = None,
      retry = Some \<lparr>maxAttempts = 0, delay = 50\<rparr>\<rparr>"

definition idle_state :: "unit engine_state" where
  "idle_state =
     \<lparr>world = w0, trace = [], heap = [spread []],
      execution = \<lparr>ex_id = ''e'', ex_workflowId = ''wf'', ex_orderId = JUndefined,
                   ex_status = RUNNING, ex_steps = [], ex_startedAt = 0,
                   ex_completedAt = None, ex_error = None\<rparr>\<rparr>"

definition retrying_workflow :: WorkflowDefinition where
  "retrying_workflow =
     \<lparr>wf_id = ''wf-retry'', wf_name = ''retrying'',
      wf_steps = [plain_step ''s1'' ''one'' (Some ''s2'') None,
                  (plain_step ''s2'' ''boom'' None None)
                    \<lparr>retry := Some \<lparr>maxAttempts = 2, delay = 10\<rparr>\<rparr>]\<rparr>"

definition two_step_workflow :: WorkflowDefinition where
  "two_step_workflow =
     \<lparr>wf_id = ''wf-two'', wf_name = ''two steps'',
      wf_steps = [plain_step ''a'' ''one'' (Some ''b'') None,
                  plain_step ''b'' ''two'' None None]\<rparr>"



definition bare_provider :: "unit IProvider" where
  "bare_provider = \<lparr>checkFreeShipping = None\<rparr>"

definition free_shipping_executors :: "unit stepExecutors" where
  "free_shipping_executors =
     [''check_free_shipping'' \<mapsto> CheckFreeShippingStepExecutor,
      ''one'' \<mapsto> emit [(''x'', JNum 1)]]"

definition free_shipping_workflow :: WorkflowDefinition where
  "free_shipping_workflow =
     \<lparr>wf_id = ''wf-free'', wf_name = ''free shipping'',
      wf_steps = [\<lparr>sd_id = ''step-1'', sd_name = ''Check Free Shipping'',
                   sd_type = ''check_free_shipping'', sd_provider = Some ''yto'',
                   sd_config = Some [], onSuccess = None, onFailure = Some ''step-2'',
                   retry = None\<rparr>,
                  plain_step ''step-2'' ''one'' None None]\<rparr>"








section \<open>Properties of the retry loop, of a step and of the walk\<close>




lemma retry_loop_frame:
  "heap (snd (retry_loop executor stepDef a providers maxAtt d attempts st)) = heap st \<and>
   execution (snd (retry_loop executor stepDef a providers maxAtt d attempts st)) = execution st"
proof (induction executor stepDef a providers maxAtt d attempts st rule: retry_loop.induct)
  case (1 executor stepDef a providers maxAtt d attempts st)
  show ?case
    using 1 by (subst (1 2) retry_loop.simps)
      (auto simp: sleep_def Let_def split: prod.splits outcome.splits)
qed

lemma retry_loop_entered:
  "attempts < maxAtt \<Longrightarrow>
   fst (retry_loop executor stepDef a providers maxAtt d attempts st) \<noteq> NotEntered"
proof (induction executor stepDef a providers maxAtt d attempts st rule: retry_loop.induct)
  case (1 executor stepDef a providers maxAtt d attempts st)
  show ?case
    using 1 by (subst retry_loop.simps)
      (auto simp: sleep_def Let_def split: prod.splits outcome.splits)
qed

lemma retry_loop_with_hint:
  "\<exists>h. retry_loop (with_hint hint executor) stepDef a providers maxAtt d attempts st =
     (case retry_loop executor stepDef a providers maxAtt d attempts st of
        (Succeeded result, st') \<Rightarrow> (Succeeded (result\<lparr>nextStepId := h\<rparr>), st')
      | (Threw msg, st') \<Rightarrow> (Threw msg, st')
      | (NotEntered, st') \<Rightarrow> (NotEntered, st'))"
proof (induction executor stepDef a providers maxAtt d attempts st rule: retry_loop.induct)
  case (1 executor stepDef a providers maxAtt d attempts st)
  show ?case
  proof (cases "attempts < maxAtt")
    case False
    then show ?thesis by (subst (1 2) retry_loop.simps) simp
  next
    case True
    obtain oc w where e: "executor stepDef (deref (heap st) a) providers (world st) = (oc, w)"
      by (cases "executor stepDef (deref (heap st) a) providers (world st)")
    show ?thesis
    proof (cases oc)
      case (Return result)
      with True e show ?thesis
        by (subst (1 2) retry_loop.simps) (auto simp: with_hint_def)
    next
      case (Throw msg)
      show ?thesis
      proof (cases "attempts + 1 \<ge> maxAtt")
        case True
        with \<open>attempts < maxAtt\<close> e Throw show ?thesis
          by (subst (1 2) retry_loop.simps) (simp add: with_hint_def)
      next
        case False
        let ?st2 = "sleep d (st\<lparr>world := w, trace := trace st @ [Invoke (sd_id stepDef)]\<rparr>)"
        have eh: "with_hint hint executor stepDef (deref (heap st) a) providers (world st) =
                  (Throw msg, w)"
          using e Throw by (simp add: with_hint_def)
        have l: "retry_loop (with_hint hint executor) stepDef a providers maxAtt d attempts st =
                 retry_loop (with_hint hint executor) stepDef a providers maxAtt d (attempts + 1) ?st2"
          using \<open>attempts < maxAtt\<close> False eh by (subst retry_loop.simps) simp
        have r: "retry_loop executor stepDef a providers maxAtt d attempts st =
                 retry_loop executor stepDef a providers maxAtt d (attempts + 1) ?st2"
          using \<open>attempts < maxAtt\<close> False e Throw by (subst retry_loop.simps) simp
        show ?thesis
          unfolding l r
          using "1.IH" [OF \<open>attempts < maxAtt\<close> e [symmetric] Throw refl False] .
      qed
    qed
  qed
qed

lemma executeStep_with_hints:
  "executeStep (with_hints hint stepExecutors) stepDef a providers st =
   executeStep stepExecutors stepDef a providers st"
proof (cases "stepExecutors (sd_type stepDef)")
  case None
  then show ?thesis by (simp add: executeStep_def with_hints_def)
next
  case (Some executor)
  obtain h where "retry_loop (with_hint hint executor) stepDef a providers
       (maxAttempts_of stepDef) (retryDelay_of stepDef) 0 st =
     (case retry_loop executor stepDef a providers
             (maxAttempts_of stepDef) (retryDelay_of stepDef) 0 st of
        (Succeeded result, st') \<Rightarrow> (Succeeded (result\<lparr>nextStepId := h\<rparr>), st')
      | (Threw msg, st') \<Rightarrow> (Threw msg, st')
      | (NotEntered, st') \<Rightarrow> (NotEntered, st'))"
    using retry_loop_with_hint by blast
  with Some show ?thesis
    by (auto simp: executeStep_def with_hints_def Let_def
          split: prod.splits loop_exit.splits sum.splits)
qed

lemma walk_with_hints:
  "walk n (with_hints hint stepExecutors) workflow a providers cur st =
   walk n stepExecutors workflow a providers cur st"
  by (induction n arbitrary: cur st)
    (auto simp: executeStep_with_hints Let_def split: option.splits prod.splits sum.splits)

lemma walk_add:
  "walk k E workflow a ps cur st = Looping c st' \<Longrightarrow>
   walk (k + m) E workflow a ps cur st = walk m E workflow a ps c st'"
proof (induction k arbitrary: cur st)
  case 0
  then show ?case by simp
next
  case (Suc k)
  then show ?case
    by (auto simp: Let_def split: option.splits prod.splits if_splits sum.splits)
qed

lemma retry_loop_frame':
  "retry_loop executor stepDef a providers maxAtt d attempts st = (r, st') \<Longrightarrow>
   heap st' = heap st \<and> execution st' = execution st"
  using retry_loop_frame [of executor stepDef a providers maxAtt d attempts st] by simp

lemma executeStep_frame:
  "heap (snd (executeStep E stepDef a ps st)) = heap st"
  "execution (snd (executeStep E stepDef a ps st)) = execution st"
  by (auto simp: executeStep_def Let_def dest: retry_loop_frame'
        split: option.splits prod.splits loop_exit.splits sum.splits)

lemma executeStep_frame':
  "executeStep E stepDef a ps st = (step, st1) \<Longrightarrow>
   heap st1 = heap st \<and> execution st1 = execution st"
  using executeStep_frame [of E stepDef a ps st] by simp

lemma walk_looping_frame:
  "walk k E workflow a ps cur st = Looping c st' \<Longrightarrow>
   ex_status (execution st') = ex_status (execution st) \<and>
   ex_error (execution st') = ex_error (execution st) \<and>
   length (heap st') = length (heap st)"
proof (induction k arbitrary: cur st)
  case 0
  then show ?case by simp
next
  case (Suc k)
  then show ?case
    by (fastforce simp: Let_def push_step_def merge_output_def
          dest: executeStep_frame' split: option.splits prod.splits if_splits sum.splits)
qed

lemma iterations_looping:
  assumes "iterations k E workflow ctx ps eid w = Looping c st"
  shows "ex_status (execution st) = RUNNING" "ex_error (execution st) = None"
    "length (heap st) = 1"
  using walk_looping_frame [OF assms [unfolded iterations_def]]
  by (simp_all add: clone_context_def begin_execution_def)

lemma execute_iterations:
  "execute n E workflow ctx ps eid w =
     (case iterations n E workflow ctx ps eid w of
        Exited st \<Rightarrow> Some (finish st)
      | Looping c st \<Rightarrow> None
      | Faulted thrown st \<Rightarrow> Some (on_rejection thrown st))"
  by (simp add: execute_def executeWorkflowAsync_def iterations_def clone_context_def
        begin_execution_def split: walk_state.splits)

lemma iterations_add:
  "iterations k E workflow ctx ps eid w = Looping c st \<Longrightarrow>
   iterations (k + m) E workflow ctx ps eid w = walk m E workflow 0 ps c st"
  unfolding iterations_def by (rule walk_add)

lemma walk_Suc_resolved:
  "cur \<noteq> [] \<Longrightarrow> find (\<lambda>s. sd_id s = cur) (wf_steps workflow) = Some stepDef \<Longrightarrow>
   walk (Suc n) E workflow a ps (Some cur) st =
     (case executeStep E stepDef a ps st of
        (Inl thrown, st1) \<Rightarrow> Faulted thrown st1
      | (Inr step, st1) \<Rightarrow>
          if ws_status step = SUCCESS then
            walk n E workflow a ps (onSuccess stepDef) (merge_output a step (push_step step st1))
          else if ws_status step = FAILED then
            Exited (fail_execution step (push_step step st1))
          else Exited (merge_output a step (push_step step st1)))"
  by (auto simp: Let_def split: prod.splits sum.splits)

lemma retry_loop_single:
  "retry_loop executor stepDef a ps 1 d 0 st =
     (case executor stepDef (deref (heap st) a) ps (world st) of
        (Return result, w') \<Rightarrow>
          (Succeeded result, st\<lparr>world := w', trace := trace st @ [Invoke (sd_id stepDef)]\<rparr>)
      | (Throw msg, w') \<Rightarrow>
          (Threw msg, st\<lparr>world := w', trace := trace st @ [Invoke (sd_id stepDef)]\<rparr>))"
  by (subst retry_loop.simps) (simp split: prod.splits outcome.splits)

lemma executeStep_terminal:
  assumes "0 < maxAttempts_of stepDef"
    and "executeStep E stepDef a ps st = (Inr step, st1)"
  shows "terminal step"
proof (cases "E (sd_type stepDef)")
  case None
  with assms(2) show ?thesis
    by (auto simp: executeStep_def terminal_def new_Error_def)
next
  case (Some executor)
  have "fst (retry_loop executor stepDef a ps (maxAttempts_of stepDef)
          (retryDelay_of stepDef) 0 st) \<noteq> NotEntered"
    using assms(1) by (rule retry_loop_entered)
  with Some assms(2) show ?thesis
    by (auto simp: executeStep_def terminal_def Let_def
          split: prod.splits loop_exit.splits sum.splits)
qed

lemma find_in_steps:
  "find P xs = Some x \<Longrightarrow> x \<in> set xs"
  by (induction xs) (auto split: if_splits)

lemma walk_steps_terminal:
  assumes ok: "\<forall>sd\<in>set (wf_steps workflow). 0 < maxAttempts_of sd"
  shows "\<forall>s\<in>set (ex_steps (execution st)). terminal s \<Longrightarrow>
         \<forall>s\<in>set (ex_steps (execution (state_of (walk k E workflow a ps cur st)))). terminal s"
proof (induction k arbitrary: cur st)
  case 0
  then show ?case by simp
next
  case (Suc k)
  show ?case
  proof (cases "\<exists>c sd. cur = Some c \<and> c \<noteq> [] \<and> find (\<lambda>s. sd_id s = c) (wf_steps workflow) = Some sd")
    case False
    then show ?thesis using Suc.prems by (auto split: option.splits)
  next
    case True
    then obtain c sd where c: "cur = Some c" "c \<noteq> []"
      "find (\<lambda>s. sd_id s = c) (wf_steps workflow) = Some sd" by blast
    obtain r st1 where e: "executeStep E sd a ps st = (r, st1)"
      by (cases "executeStep E sd a ps st")
    have x: "execution st1 = execution st" using executeStep_frame' [OF e] by simp
    show ?thesis
    proof (cases r)
      case (Inl thrown)
      then show ?thesis
        unfolding c(1) walk_Suc_resolved [OF c(2,3)] e using Suc.prems x by simp
    next
      case (Inr step)
      have "sd \<in> set (wf_steps workflow)" using c(3) by (rule find_in_steps)
      then have t: "terminal step"
        using ok executeStep_terminal [of sd E a ps st step st1] e Inr by simp
      let ?st3 = "merge_output a step (push_step step st1)"
      have p: "\<forall>s\<in>set (ex_steps (execution ?st3)). terminal s"
        using Suc.prems t x by (auto simp: merge_output_def push_step_def split: option.splits)
      have f: "\<forall>s\<in>set (ex_steps (execution (fail_execution step (push_step step st1)))). terminal s"
        using Suc.prems t x by (auto simp: fail_execution_def push_step_def)
      show ?thesis
        unfolding c(1) walk_Suc_resolved [OF c(2,3)] e Inr
        using Suc.IH [OF p] p f by simp
    qed
  qed
qed





section \<open>The claims\<close>




text \<open>
  C2. When the step at which a run has arrived ends FAILED, the run ends there: the execution
  is FAILED, carries the error of that step and an end time, and the failed step is the
  last record of the step sequence, whatever its \<^verbatim>\<open>onFailure\<close> edge is.
\<close>

theorem failed_step_stops_walk:
  assumes "iterations k E workflow ctx ps eid w = Looping (Some cur) st"
    and "cur \<noteq> []"
    and "find (\<lambda>s. sd_id s = cur) (wf_steps workflow) = Some stepDef"
    and "executeStep E stepDef 0 ps st = (Inr step, st1)"
    and "ws_status step = FAILED"
  shows "\<exists>r. execute (k + Suc n) E workflow ctx ps eid w = Some r \<and>
             ex_status (execution r) = FAILED \<and>
             ex_error (execution r) = ws_error step \<and>
             ex_completedAt (execution r) = Some (clock (world st1)) \<and>
             ex_steps (execution r) = ex_steps (execution st) @ [step]"
proof -
  have "iterations (k + Suc n) E workflow ctx ps eid w =
        Exited (fail_execution step (push_step step st1))"
    unfolding iterations_add [OF assms(1)] using assms(2-5) by (simp add: Let_def)
  moreover have "execution st1 = execution st"
    using executeStep_frame' [OF assms(4)] by simp
  ultimately show ?thesis
    by (simp add: execute_iterations finish_def fail_execution_def push_step_def Let_def)
qed

text \<open>The first step fails; its \<^verbatim>\<open>onFailure\<close> edge names an existing step, which never runs.\<close>

theorem failed_step_stops_walk_witness:
  "\<exists>r. execute 5 demo_executors failing_workflow [] Map.empty ''e1'' w0 = Some r \<and>
       ex_status (execution r) = FAILED \<and> ex_error (execution r) = Some (JStr ''boom'') \<and>
       ex_completedAt (execution r) = Some 0 \<and>
       map ws_id (ex_steps (execution r)) = [''s1'']"
proof -
  let ?st = "snd (clone_context [] (begin_execution ''e1'' failing_workflow [] w0))"
  let ?sd = "plain_step ''s1'' ''boom'' (Some ''s2'') (Some ''s2'')"
  let ?step = "\<lparr>ws_id = ''s1'', ws_name = ''s1'', ws_status = FAILED, ws_provider = None,
                 ws_input = 0, ws_output = None, ws_error = Some (JStr ''boom''),
                 ws_startedAt = 0, ws_completedAt = Some 0\<rparr>"
  have 1: "iterations 0 demo_executors failing_workflow [] Map.empty ''e1'' w0 =
           Looping (Some ''s1'') ?st"
    by (simp add: iterations_def entry_def failing_workflow_def plain_step_def)
  have 2: "find (\<lambda>s. sd_id s = ''s1'') (wf_steps failing_workflow) = Some ?sd"
    by (simp add: failing_workflow_def plain_step_def)
  have 3: "executeStep demo_executors ?sd 0 Map.empty ?st =
           (Inr ?step, ?st\<lparr>trace := [Invoke ''s1'']\<rparr>)"
    by (simp add: executeStep_def demo_executors_def plain_step_def maxAttempts_of_def
          retryDelay_of_def retry_loop.simps boom_def clone_context_def begin_execution_def
          w0_def new_Error_def get_prop_def)
  have 4: "ws_status ?step = FAILED" by simp
  have 5: "ex_steps (execution ?st) = []" "clock (world ?st) = 0"
    by (simp_all add: clone_context_def begin_execution_def w0_def)
  have ne: "''s1'' \<noteq> []" by simp
  from failed_step_stops_walk [OF 1 ne 2 3 4, of 4] 5 show ?thesis
    by auto
qed

text \<open>
  C3. When the step at which a run has arrived succeeds and its \<^verbatim>\<open>onSuccess\<close> edge names an id
  that no step of the definition has, the run ends without an error: the execution is
  SUCCESS, has no top-level error and has its end time, and that step is its last record.
\<close>

theorem unresolvable_onSuccess_ends_in_success:
  assumes "iterations k E workflow ctx ps eid w = Looping (Some cur) st"
    and "cur \<noteq> []"
    and "find (\<lambda>s. sd_id s = cur) (wf_steps workflow) = Some stepDef"
    and "executeStep E stepDef 0 ps st = (Inr step, st1)"
    and "ws_status step = SUCCESS"
    and "onSuccess stepDef = Some target"
    and "find (\<lambda>s. sd_id s = target) (wf_steps workflow) = None"
  shows "\<exists>r. execute (k + Suc (Suc n)) E workflow ctx ps eid w = Some r \<and>
             ex_status (execution r) = SUCCESS \<and>
             ex_error (execution r) = None \<and>
             ex_completedAt (execution r) = Some (clock (world st1)) \<and>
             ex_steps (execution r) = ex_steps (execution st) @ [step]"
proof -
  let ?st3 = "merge_output 0 step (push_step step st1)"
  have "iterations (k + Suc (Suc n)) E workflow ctx ps eid w = Exited ?st3"
    unfolding iterations_add [OF assms(1)] using assms(2-7)
    by (simp add: Let_def split: option.splits)
  moreover have "execution st1 = execution st"
    using executeStep_frame' [OF assms(4)] by simp
  moreover have "execution ?st3 = (execution st1)\<lparr>ex_steps := ex_steps (execution st1) @ [step]\<rparr>"
    "world ?st3 = world st1"
    by (simp_all add: merge_output_def push_step_def split: option.splits)
  ultimately show ?thesis
    using iterations_looping [OF assms(1)]
    by (simp add: execute_iterations finish_def Let_def)
qed

text \<open>A single step that succeeds and whose \<^verbatim>\<open>onSuccess\<close> edge leads nowhere.\<close>

theorem unresolvable_onSuccess_ends_in_success_witness:
  "\<exists>r. execute 2 demo_executors dangling_workflow [] Map.empty ''e2'' w0 = Some r \<and>
       ex_status (execution r) = SUCCESS \<and> ex_error (execution r) = None \<and>
       ex_completedAt (execution r) = Some 0 \<and>
       map ws_id (ex_steps (execution r)) = [''s1''] \<and>
       map ws_status (ex_steps (execution r)) = [SUCCESS]"
proof -
  let ?st = "snd (clone_context [] (begin_execution ''e2'' dangling_workflow [] w0))"
  let ?sd = "plain_step ''s1'' ''one'' (Some ''nowhere'') None"
  let ?step = "\<lparr>ws_id = ''s1'', ws_name = ''s1'', ws_status = SUCCESS, ws_provider = None,
                 ws_input = 0, ws_output = Some [(''x'', JNum 1)], ws_error = None,
                 ws_startedAt = 0, ws_completedAt = Some 0\<rparr>"
  have 1: "iterations 0 demo_executors dangling_workflow [] Map.empty ''e2'' w0 =
           Looping (Some ''s1'') ?st"
    by (simp add: iterations_def entry_def dangling_workflow_def plain_step_def)
  have 2: "find (\<lambda>s. sd_id s = ''s1'') (wf_steps dangling_workflow) = Some ?sd"
    by (simp add: dangling_workflow_def plain_step_def)
  have 3: "executeStep demo_executors ?sd 0 Map.empty ?st =
           (Inr ?step, ?st\<lparr>trace := [Invoke ''s1'']\<rparr>)"
    by (simp add: executeStep_def demo_executors_def plain_step_def maxAttempts_of_def
          retryDelay_of_def retry_loop.simps emit_def clone_context_def begin_execution_def
          w0_def)
  have 4: "ws_status ?step = SUCCESS" by simp
  have 5: "ex_steps (execution ?st) = []" "clock (world ?st) = 0"
    by (simp_all add: clone_context_def begin_execution_def w0_def)
  have 6: "onSuccess ?sd = Some ''nowhere''" by (simp add: plain_step_def)
  have 7: "find (\<lambda>s. sd_id s = ''nowhere'') (wf_steps dangling_workflow) = None"
    by (simp add: dangling_workflow_def plain_step_def)
  have ne: "''s1'' \<noteq> []" by simp
  from unresolvable_onSuccess_ends_in_success [OF 1 ne 2 3 4 6 7, of 0] 5 show ?thesis
    by (auto simp: numeral_2_eq_2)
qed

text \<open>
  C4. A \<^verbatim>\<open>check_free_shipping\<close> step with a provider that has no free-shipping check. The
  executor returns output \<^verbatim>\<open>{notification: null}\<close> and names the \<^verbatim>\<open>onFailure\<close> target as next
  step, and the step is recorded SUCCESS. The walk does not go there: it follows the
  \<^verbatim>\<open>onSuccess\<close> edge, which is not set here, so the run ends after this one step and the
  step \<open>step-2\<close> that \<^verbatim>\<open>onFailure\<close> names is never run.
\<close>

theorem check_free_shipping_unsupported_stops_walk:
  "CheckFreeShippingStepExecutor (hd (wf_steps free_shipping_workflow))
     (spread [(''orderId'', JStr ''o-1'')]) [''yto'' \<mapsto> bare_provider] w0 =
     (Return \<lparr>res_output = Some [(''notification'', JNull)], nextStepId = Some ''step-2''\<rparr>, w0)
   \<and> (\<exists>r. execute 3 free_shipping_executors free_shipping_workflow [(''orderId'', JStr ''o-1'')]
            [''yto'' \<mapsto> bare_provider] ''e7'' w0 = Some r \<and>
          map ws_id (ex_steps (execution r)) = [''step-1''] \<and>
          map ws_status (ex_steps (execution r)) = [SUCCESS] \<and>
          map ws_output (ex_steps (execution r)) = [Some [(''notification'', JNull)]] \<and>
          trace r = [Invoke ''step-1''] \<and>
          ex_status (execution r) = SUCCESS)"
  by (simp add: execute_def executeWorkflowAsync_def clone_context_def begin_execution_def
        entry_def free_shipping_workflow_def plain_step_def numeral_3_eq_3 executeStep_def
        free_shipping_executors_def maxAttempts_of_def retryDelay_of_def retry_loop.simps
        CheckFreeShippingStepExecutor_def providerId_of_def providers_get_def js_or_def
        get_prop_def ctx_get_def spread_def bare_provider_def Let_def push_step_def
        merge_output_def fail_execution_def finish_def w0_def deref_def object_assign_def
        ctx_set_def)




text \<open>
  C6. The \<^verbatim>\<open>input\<close> field of a step record refers to the context object of the run, which
  the walk updates in place. In a run of two steps from the context \<^verbatim>\<open>{x: 0}\<close>, where the
  first step writes \<open>x = 1\<close> and the second \<open>x = 2\<close>, the context is \<^verbatim>\<open>{x: 0}\<close> when the first
  step starts and \<^verbatim>\<open>{x: 1}\<close> when the second starts, and in the final record the input of
  both steps reads \<^verbatim>\<open>{x: 2}\<close>.
\<close>

theorem recorded_input_follows_later_merges:
  "deref (heap (state_of (iterations 0 demo_executors two_step_workflow [(''x'', JNum 0)]
      Map.empty ''e8'' w0))) 0 = spread [(''x'', JNum 0)]
   \<and> deref (heap (state_of (iterations 1 demo_executors two_step_workflow [(''x'', JNum 0)]
      Map.empty ''e8'' w0))) 0 = spread [(''x'', JNum 1)]
   \<and> (\<exists>r. execute 3 demo_executors two_step_workflow [(''x'', JNum 0)] Map.empty ''e8'' w0 = Some r \<and>
          map ws_id (ex_steps (execution r)) = [''a'', ''b''] \<and>
          map (input_of r) (ex_steps (execution r)) =
            [spread [(''x'', JNum 2)], spread [(''x'', JNum 2)]])"
  by (simp add: execute_def executeWorkflowAsync_def iterations_def clone_context_def
        begin_execution_def entry_def two_step_workflow_def plain_step_def numeral_3_eq_3
        executeStep_def demo_executors_def maxAttempts_of_def retryDelay_of_def
        retry_loop.simps emit_def Let_def push_step_def merge_output_def fail_execution_def
        finish_def w0_def deref_def object_assign_def input_of_def ctx_set_def spread_def
        get_prop_def)




text \<open>
  C8. Which step the walk visits next depends only on the status of the step just run and on
  the \<^verbatim>\<open>onSuccess\<close> edge of its definition: SUCCESS goes on at \<^verbatim>\<open>onSuccess\<close>, any other status
  leaves the loop. The \<^verbatim>\<open>nextStepId\<close> that an executor returns has no influence: replacing
  it by any other hint in every result gives the same run, record for record.
\<close>

theorem next_step_ignores_nextStepId:
  "iterations k (with_hints hint E) workflow ctx ps eid w = iterations k E workflow ctx ps eid w
   \<and> execute k (with_hints hint E) workflow ctx ps eid w = execute k E workflow ctx ps eid w
   \<and> (cur \<noteq> [] \<longrightarrow> find (\<lambda>s. sd_id s = cur) (wf_steps workflow) = Some stepDef \<longrightarrow>
        walk (Suc n) E workflow a ps (Some cur) st =
          (case executeStep E stepDef a ps st of
             (Inl thrown, st1) \<Rightarrow> Faulted thrown st1
           | (Inr step, st1) \<Rightarrow>
               if ws_status step = SUCCESS then
                 walk n E workflow a ps (onSuccess stepDef)
                   (merge_output a step (push_step step st1))
               else if ws_status step = FAILED then
                 Exited (fail_execution step (push_step step st1))
               else Exited (merge_output a step (push_step step st1))))"
proof -
  have "iterations k (with_hints hint E) workflow ctx ps eid w =
        iterations k E workflow ctx ps eid w"
    by (simp add: iterations_def walk_with_hints)
  then show ?thesis
    by (simp add: execute_iterations walk_Suc_resolved del: walk.simps)
qed

text \<open>
  Every executor hints at step \<open>s2\<close>; the walk still follows the \<^verbatim>\<open>onSuccess\<close> edge of \<open>s1\<close>,
  which is not set.
\<close>

theorem next_step_ignores_nextStepId_witness:
  "execute 3 (with_hints (\<lambda>stepDef context providers w. Some ''s2'') demo_executors) hinted_workflow []
     Map.empty ''e3'' w0 =
   execute 3 demo_executors hinted_workflow [] Map.empty ''e3'' w0
   \<and> (\<exists>s. walk (Suc 0) demo_executors hinted_workflow 0 Map.empty (Some ''s1'')
               (snd (clone_context [] (begin_execution ''e3'' hinted_workflow [] w0))) =
             Looping None s)"
proof -
  let ?st = "snd (clone_context [] (begin_execution ''e3'' hinted_workflow [] w0))"
  let ?sd = "plain_step ''s1'' ''one'' None (Some ''s2'')"
  have 2: "find (\<lambda>s. sd_id s = ''s1'') (wf_steps hinted_workflow) = Some ?sd"
    by (simp add: hinted_workflow_def plain_step_def)
  have e: "executeStep demo_executors ?sd 0 Map.empty ?st =
           (Inr \<lparr>ws_id = ''s1'', ws_name = ''s1'', ws_status = SUCCESS, ws_provider = None,
                 ws_input = 0, ws_output = Some [(''x'', JNum 1)], ws_error = None,
                 ws_startedAt = 0, ws_completedAt = Some 0\<rparr>,
            ?st\<lparr>trace := [Invoke ''s1'']\<rparr>)"
    by (simp add: executeStep_def demo_executors_def plain_step_def maxAttempts_of_def
          retryDelay_of_def retry_loop.simps emit_def clone_context_def begin_execution_def
          w0_def)
  have os: "onSuccess ?sd = None" by (simp add: plain_step_def)
  from next_step_ignores_nextStepId [of 3 "\<lambda>stepDef context providers w. Some ''s2''" demo_executors
      hinted_workflow "[]" Map.empty "''e3''" w0 "''s1''" ?sd 0 0 ?st] 2
  have a: "execute 3 (with_hints (\<lambda>stepDef context providers w. Some ''s2'') demo_executors) hinted_workflow []
     Map.empty ''e3'' w0 = execute 3 demo_executors hinted_workflow [] Map.empty ''e3'' w0"
    and b: "walk (Suc 0) demo_executors hinted_workflow 0 Map.empty (Some ''s1'') ?st =
       (case executeStep demo_executors ?sd 0 Map.empty ?st of
             (Inl thrown, st1) \<Rightarrow> Faulted thrown st1
           | (Inr step, st1) \<Rightarrow>
               if ws_status step = SUCCESS then
                 walk 0 demo_executors hinted_workflow 0 Map.empty (onSuccess ?sd)
                   (merge_output 0 step (push_step step st1))
               else if ws_status step = FAILED then
                 Exited (fail_execution step (push_step step st1))
               else Exited (merge_output 0 step (push_step step st1)))"
    by (simp_all del: walk.simps)
  show ?thesis
    unfolding b e os using a by simp
qed

text \<open>
  C9. A retry policy with \<open>maxAttempts = 0\<close> is treated as the absent policy is: \<^verbatim>\<open>0 || 1\<close>
  is 1, so the retry loop runs as it does with the defaults, and the executor is called
  exactly once, whether it returns or throws.
\<close>

theorem zero_maxAttempts_is_one_attempt:
  assumes "retry stepDef = Some rp" and "maxAttempts rp = 0"
    and "E (sd_type stepDef) = Some executor"
  shows "maxAttempts_of stepDef = maxAttempts_of (stepDef\<lparr>retry := None\<rparr>)
    \<and> retry_loop executor stepDef a ps (maxAttempts_of stepDef) (retryDelay_of stepDef) 0 st =
      retry_loop executor stepDef a ps (maxAttempts_of (stepDef\<lparr>retry := None\<rparr>))
        (retryDelay_of (stepDef\<lparr>retry := None\<rparr>)) 0 st
    \<and> (case executor stepDef (deref (heap st) a) ps (world st) of
         (oc, w') \<Rightarrow>
           snd (executeStep E stepDef a ps st) =
             st\<lparr>world := w', trace := trace st @ [Invoke (sd_id stepDef)]\<rparr> \<and>
           invocations (trace (snd (executeStep E stepDef a ps st))) =
             invocations (trace st) + 1 \<and>
           (case oc of
              Return result \<Rightarrow>
                (\<exists>step. fst (executeStep E stepDef a ps st) = Inr step \<and>
                        ws_status step = SUCCESS \<and> ws_output step = res_output result)
            | Throw thrown \<Rightarrow>
                (case read_message thrown of
                   Inr msg \<Rightarrow>
                     (\<exists>step. fst (executeStep E stepDef a ps st) = Inr step \<and>
                             ws_status step = FAILED \<and> ws_error step = Some msg)
                 | Inl typeError \<Rightarrow> fst (executeStep E stepDef a ps st) = Inl typeError)))"
proof -
  have m: "maxAttempts_of stepDef = 1" "maxAttempts_of (stepDef\<lparr>retry := None\<rparr>) = 1"
    "retryDelay_of (stepDef\<lparr>retry := None\<rparr>) = 0"
    using assms(1,2) by (simp_all add: maxAttempts_of_def retryDelay_of_def)
  show ?thesis
    unfolding m retry_loop_single
    using assms(3)
    by (auto simp: executeStep_def m retry_loop_single Let_def invocations_def
          split: prod.splits outcome.splits sum.splits)
qed

text \<open>An executor that throws at its first call, under a policy with \<open>maxAttempts = 0\<close>.\<close>

theorem zero_maxAttempts_is_one_attempt_witness:
  "(\<exists>step. fst (executeStep [''flaky'' \<mapsto> flaky] zero_retry_step 0 Map.empty idle_state) = Inr step
      \<and> ws_status step = FAILED \<and> ws_error step = Some (JStr ''not yet''))
   \<and> trace (snd (executeStep [''flaky'' \<mapsto> flaky] zero_retry_step 0 Map.empty idle_state)) =
       [Invoke ''z1'']"
proof -
  have r: "retry zero_retry_step = Some \<lparr>maxAttempts = 0, delay = 50\<rparr>"
    "sd_id zero_retry_step = ''z1''"
    by (simp_all add: zero_retry_step_def)
  have t: "[''flaky'' \<mapsto> flaky] (sd_type zero_retry_step) = Some flaky"
    by (simp add: zero_retry_step_def)
  have f: "flaky zero_retry_step (deref (heap idle_state) 0) Map.empty (world idle_state) =
           (Throw (new_Error ''not yet''), tick 5 w0)"
    by (simp add: flaky_def idle_state_def w0_def)
  have m: "read_message (new_Error ''not yet'') = Inr (JStr ''not yet'')"
    by (simp add: new_Error_def get_prop_def)
  note z = zero_maxAttempts_is_one_attempt [of zero_retry_step "\<lparr>maxAttempts = 0, delay = 50\<rparr>"
      "[''flaky'' \<mapsto> flaky]" flaky 0 Map.empty idle_state, OF r(1) _ t, simplified]
  have i: "trace idle_state = []" by (simp add: idle_state_def)
  from z show ?thesis
    by (simp add: f m r(2) i)
qed

text \<open>
  C10. In a run of a workflow in which every retry policy that is present has
  \<open>maxAttempts \<ge> 1\<close>, every step record of the execution is terminal (SUCCESS or FAILED, with
  its end time), at every moment of the walk, that is after any number of iterations, and
  in the final record.
\<close>

theorem recorded_steps_are_terminal:
  assumes "\<forall>sd\<in>set (wf_steps workflow). \<forall>rp. retry sd = Some rp \<longrightarrow> 1 \<le> maxAttempts rp"
  shows "(\<forall>s\<in>set (ex_steps (execution (state_of (iterations k E workflow ctx ps eid w)))).
            terminal s)
       \<and> (\<forall>r. execute k E workflow ctx ps eid w = Some r \<longrightarrow>
               (\<forall>s\<in>set (ex_steps (execution r)). terminal s))"
proof -
  have ok: "\<forall>sd\<in>set (wf_steps workflow). 0 < maxAttempts_of sd"
    using assms by (fastforce simp: maxAttempts_of_def split: option.splits)
  have i: "\<forall>s\<in>set (ex_steps (execution (state_of (iterations k E workflow ctx ps eid w)))).
            terminal s"
    unfolding iterations_def
    by (rule walk_steps_terminal [OF ok]) (simp add: clone_context_def begin_execution_def)
  moreover have "ex_steps (execution (finish st)) = ex_steps (execution st)"
    for st :: "'a engine_state"
    by (simp add: finish_def Let_def)
  moreover have "ex_steps (execution (on_rejection thrown st)) = ex_steps (execution st)"
    for thrown and st :: "'a engine_state"
    by (simp add: on_rejection_def split: sum.splits)
  ultimately show ?thesis
    by (auto simp: execute_iterations split: walk_state.splits)
qed

text \<open>A step that succeeds, then a step that fails after two attempts: both records are terminal.\<close>

theorem recorded_steps_are_terminal_witness:
  "map terminal (ex_steps (execution (state_of
        (iterations 1 demo_executors retrying_workflow [] Map.empty ''e4'' w0)))) = [True]
   \<and> (\<exists>r. execute 2 demo_executors retrying_workflow [] Map.empty ''e4'' w0 = Some r \<and>
          map ws_status (ex_steps (execution r)) = [SUCCESS, FAILED] \<and>
          map terminal (ex_steps (execution r)) = [True, True])"
proof -
  have h: "\<forall>sd\<in>set (wf_steps retrying_workflow). \<forall>rp. retry sd = Some rp \<longrightarrow> 1 \<le> maxAttempts rp"
    by (simp add: retrying_workflow_def plain_step_def)
  have i: "\<exists>s. ex_steps (execution (state_of
        (iterations 1 demo_executors retrying_workflow [] Map.empty ''e4'' w0))) = [s]"
    by (simp add: iterations_def clone_context_def begin_execution_def
          entry_def retrying_workflow_def plain_step_def executeStep_def
          demo_executors_def maxAttempts_of_def retryDelay_of_def retry_loop.simps emit_def
          Let_def push_step_def merge_output_def w0_def deref_def object_assign_def)
  have e: "\<exists>r s t. execute 2 demo_executors retrying_workflow [] Map.empty ''e4'' w0 = Some r \<and>
          ex_steps (execution r) = [s, t] \<and> ws_status s = SUCCESS \<and> ws_status t = FAILED"
    by (simp add: execute_def executeWorkflowAsync_def clone_context_def begin_execution_def
          entry_def retrying_workflow_def plain_step_def numeral_2_eq_2 executeStep_def
          demo_executors_def maxAttempts_of_def retryDelay_of_def retry_loop.simps emit_def
          boom_def Let_def push_step_def merge_output_def fail_execution_def finish_def
          sleep_def pause_def timer_duration_def tick_def waits_def w0_def deref_def
          object_assign_def new_Error_def get_prop_def ctx_set_def spread_def)
  from recorded_steps_are_terminal [OF h, of 1 demo_executors "[]" Map.empty "''e4''" w0] i
  have a: "map terminal (ex_steps (execution (state_of
        (iterations 1 demo_executors retrying_workflow [] Map.empty ''e4'' w0)))) = [True]"
    by auto
  from recorded_steps_are_terminal [OF h, of 2 demo_executors "[]" Map.empty "''e4''" w0] e
  have "\<exists>r. execute 2 demo_executors retrying_workflow [] Map.empty ''e4'' w0 = Some r \<and>
          map ws_status (ex_steps (execution r)) = [SUCCESS, FAILED] \<and>
          map terminal (ex_steps (execution r)) = [True, True]"
    by auto
  with a show ?thesis by blast
qed

end
